theory Spec2Isabelle
  imports Main
begin

section \<open>JavaScript values delivered by the server\<close>

text \<open>
  The queue dashboard of \<^verbatim>\<open>src/static/js/home/home.js\<close> works on whatever
  \<^verbatim>\<open>response.json()\<close> returns. Such a value is a JSON value; \<open>JUndefined\<close> is
  added for the result of reading a property that is not there.

  Modelling limits, stated once:
  \<^item> strings are ASCII (\<open>toLowerCase\<close> maps \<open>A\<close>..\<open>Z\<close> only);
  \<^item> numbers are integers printed in plain decimal;
  \<^item> an object is the list of its own properties, the first binding of a key being the
    effective one; no object has an own property named \<open>toString\<close> or \<open>valueOf\<close>,
    so that converting it to a string gives \<open>[object Object]\<close>.
\<close>

datatype jsval =
    JUndefined
  | JNull
  | JBool bool
  | JNum int
  | JStr string
  | JArr "jsval list"
  | JObj "(string \<times> jsval) list"

datatype error =
    TypeError
  | SyntaxError
  | FetchRejected
  | HttpError string

text \<open>\<open>ToBoolean\<close>: the truthiness test of \<^verbatim>\<open>if (v)\<close>, \<^verbatim>\<open>v ? a : b\<close> and \<^verbatim>\<open>v || d\<close>.\<close>

fun ToBoolean :: "jsval \<Rightarrow> bool" where
  "ToBoolean JUndefined = False"
| "ToBoolean JNull = False"
| "ToBoolean (JBool b) = b"
| "ToBoolean (JNum n) = (n \<noteq> 0)"
| "ToBoolean (JStr s) = (s \<noteq> [])"
| "ToBoolean (JArr xs) = True"
| "ToBoolean (JObj kvs) = True"

text \<open>\<^verbatim>\<open>v || d\<close>\<close>

definition or_else :: "jsval \<Rightarrow> jsval \<Rightarrow> jsval" where
  "or_else v d = (if ToBoolean v then v else d)"

text \<open>
  \<open>field v k\<close> is \<^verbatim>\<open>v.k\<close> for a receiver \<open>v\<close> that is neither \<open>null\<close> nor
  \<open>undefined\<close>, and for the data property names the dashboard reads (\<open>queues\<close>,
  \<open>success\<close>, \<open>length\<close>, \<open>department\<close>, \<open>doctor_id\<close>, \<open>doctor_name\<close>,
  \<open>doctor_specialty\<close>, \<open>status\<close>, \<open>currentPatient\<close>, \<open>waiting\<close>, \<open>avgTime\<close>,
  \<open>number\<close>, \<open>name\<close>, \<open>case\<close>, \<open>time\<close>): none of them is a member of a built-in
  prototype, except \<open>length\<close> of strings and arrays.
\<close>

fun field :: "jsval \<Rightarrow> string \<Rightarrow> jsval" where
  "field (JObj kvs) k = (case map_of kvs k of Some v \<Rightarrow> v | None \<Rightarrow> JUndefined)"
| "field (JArr xs) k = (if k = ''length'' then JNum (int (length xs)) else JUndefined)"
| "field (JStr s) k = (if k = ''length'' then JNum (int (length s)) else JUndefined)"
| "field v k = JUndefined"

text \<open>\<open>get_prop v k\<close> is \<^verbatim>\<open>v.k\<close> for any receiver: reading a property of \<open>null\<close> or
  \<open>undefined\<close> throws a TypeError.\<close>

fun nullish :: "jsval \<Rightarrow> bool" where
  "nullish JUndefined = True"
| "nullish JNull = True"
| "nullish v = False"

definition get_prop :: "jsval \<Rightarrow> string \<Rightarrow> error + jsval" where
  "get_prop v k = (if nullish v then Inl TypeError else Inr (field v k))"

subsection \<open>Conversion to string\<close>

definition digit :: "nat \<Rightarrow> char" where
  "digit d = ''0123456789'' ! d"

function dec_nat :: "nat \<Rightarrow> string" where
  "dec_nat n = (if n < 10 then [digit n] else dec_nat (n div 10) @ [digit (n mod 10)])"
  by pat_completeness auto
termination
  by (relation "measure id") auto

definition dec_int :: "int \<Rightarrow> string" where
  "dec_int i = (if i < 0 then CHR ''-'' # dec_nat (nat (- i)) else dec_nat (nat i))"

text \<open>\<open>ToString\<close> is the conversion of a template literal's \<^verbatim>\<open>${...}\<close>; an array is
  joined with commas, \<open>null\<close> and \<open>undefined\<close> elements giving the empty string.\<close>

fun ToString :: "jsval \<Rightarrow> string"
  and join_elems :: "jsval list \<Rightarrow> string" where
  "ToString JUndefined = ''undefined''"
| "ToString JNull = ''null''"
| "ToString (JBool b) = (if b then ''true'' else ''false'')"
| "ToString (JNum n) = dec_int n"
| "ToString (JStr s) = s"
| "ToString (JArr xs) = join_elems xs"
| "ToString (JObj kvs) = ''[object Object]''"
| "join_elems [] = []"
| "join_elems [x] = (if nullish x then [] else ToString x)"
| "join_elems (x # y # ys) =
     (if nullish x then [] else ToString x) @ '','' @ join_elems (y # ys)"

subsection \<open>String methods\<close>

definition lower_char :: "char \<Rightarrow> char" where
  "lower_char c =
     (case map_of (zip ''ABCDEFGHIJKLMNOPQRSTUVWXYZ'' ''abcdefghijklmnopqrstuvwxyz'') c of
        Some l \<Rightarrow> l | None \<Rightarrow> c)"

text \<open>\<^verbatim>\<open>s.toLowerCase()\<close> on a string.\<close>

definition toLowerCase :: "string \<Rightarrow> string" where
  "toLowerCase s = map lower_char s"

text \<open>\<^verbatim>\<open>v.toLowerCase()\<close> on any value: only a string has the method; on \<open>null\<close> and
  \<open>undefined\<close> the property read throws, on any other value the call of \<open>undefined\<close>
  throws.\<close>

fun call_toLowerCase :: "jsval \<Rightarrow> error + string" where
  "call_toLowerCase (JStr s) = Inr (toLowerCase s)"
| "call_toLowerCase v = Inl TypeError"

fun is_prefix :: "string \<Rightarrow> string \<Rightarrow> bool" where
  "is_prefix [] s = True"
| "is_prefix (c # cs) [] = False"
| "is_prefix (c # cs) (d # ds) = (c = d \<and> is_prefix cs ds)"

text \<open>\<^verbatim>\<open>s.includes(t)\<close>: \<open>t\<close> occurs in \<open>s\<close> as a contiguous substring.\<close>

fun str_includes :: "string \<Rightarrow> string \<Rightarrow> bool" where
  "str_includes [] t = (t = [])"
| "str_includes (c # cs) t = (is_prefix t (c # cs) \<or> str_includes cs t)"

section \<open>The doctor card\<close>

text \<open>
  \<open>createDoctorCard\<close> fills an HTML template. The card is modelled by the strings put
  into the holes of the template, in the order of the template; parsing of the markup
  by \<^verbatim>\<open>innerHTML\<close> is not modelled.
\<close>

text \<open>The table \<^verbatim>\<open>medicalCases\<close>.\<close>

definition medicalCases :: "(string \<times> string) list" where
  "medicalCases =
     [(''normal'', ''Regular Checkup''),
      (''urgent'', ''Urgent Case''),
      (''followup'', ''Follow-up Visit'')]"

text \<open>
  \<^verbatim>\<open>medicalCases\<close> is an object literal, so \<^verbatim>\<open>medicalCases[k]\<close> also finds the members
  of \<open>Object.prototype\<close>. The functions among them print as their source text, which
  depends on the browser: \<open>NativeCode k\<close> stands for the text of the built-in function
  that \<open>Object.prototype\<close> holds under the key \<open>k\<close>.
\<close>

datatype printed = Text string | NativeCode string

definition object_prototype_functions :: "string list" where
  "object_prototype_functions =
     [''constructor'', ''hasOwnProperty'', ''isPrototypeOf'', ''propertyIsEnumerable'',
      ''toLocaleString'', ''toString'', ''valueOf'', ''__defineGetter__'',
      ''__defineSetter__'', ''__lookupGetter__'', ''__lookupSetter__'']"

text \<open>\<^verbatim>\<open>${medicalCases[v]}\<close>: the key is \<open>ToString v\<close>; a key that is nowhere gives
  \<open>undefined\<close>, printed as the nine letters \<open>undefined\<close>; \<open>__proto__\<close> gives
  \<open>Object.prototype\<close> itself.\<close>

definition medicalCases_text :: "jsval \<Rightarrow> printed" where
  "medicalCases_text v =
     (let k = ToString v in
      case map_of medicalCases k of
        Some l \<Rightarrow> Text l
      | None \<Rightarrow>
          if k \<in> set object_prototype_functions then NativeCode k
          else if k = ''__proto__'' then Text ''[object Object]''
          else Text (ToString JUndefined))"

text \<open>The block under \<open>Currently Examining\<close>: the patient display, or the placeholder
  \<open>No current patient\<close>.\<close>

datatype patient_section =
    PatientDisplay (patient_number: string) (patient_name: string)
      (patient_case: printed) (patient_time: string)
  | NoCurrentPatient

record card =
  data_id :: string
  data_department :: string
  doctor_name :: string
  doctor_specialty :: string
  statusClass :: string
  statusText :: string
  patient :: patient_section
  waiting_count :: string
  avg_time :: string
  call_action :: "jsval option"

text \<open>The \<^verbatim>\<open>switch (doctor.status)\<close>: cases compare with \<open>===\<close>, so only the three
  strings are recognised.\<close>

definition status_of :: "jsval \<Rightarrow> string \<times> string" where
  "status_of st =
     (if st = JStr ''available'' then (''status-available'', ''Available'')
      else if st = JStr ''in-session'' then (''status-in-session'', ''In Session'')
      else if st = JStr ''on-break'' then (''status-on-break'', ''On Break'')
      else (''status-available'', ''Available''))"

definition patient_section_of :: "jsval \<Rightarrow> patient_section" where
  "patient_section_of cp =
     (if ToBoolean cp then
        PatientDisplay
          (ToString (or_else (field cp ''number'') (JStr [])))
          (ToString (or_else (field cp ''name'') (JStr [])))
          (if ToBoolean (field cp ''case'') then medicalCases_text (field cp ''case'')
           else Text [])
          (ToString (or_else (field cp ''time'') (JStr [])))
      else NoCurrentPatient)"

text \<open>
  The card built from an entry that is neither \<open>null\<close> nor \<open>undefined\<close>: every
  receiver of a property read is the entry itself or a value just found truthy, hence
  \<open>field\<close>. \<open>call_action\<close> is \<open>Some id\<close> when the click listener calling
  \<^verbatim>\<open>callNextPatient(doctor.doctor_id)\<close> is attached.
\<close>

definition doctor_card :: "jsval \<Rightarrow> card" where
  "doctor_card doctor =
     \<lparr> data_id = ToString (field doctor ''doctor_id''),
       data_department = ToString (field doctor ''department''),
       doctor_name = ToString (field doctor ''doctor_name''),
       doctor_specialty = ToString (field doctor ''doctor_specialty''),
       statusClass = fst (status_of (field doctor ''status'')),
       statusText = snd (status_of (field doctor ''status'')),
       patient = patient_section_of (field doctor ''currentPatient''),
       waiting_count =
         ToString (if ToBoolean (field doctor ''waiting'')
                   then field (field doctor ''waiting'') ''length''
                   else JNum 0),
       avg_time = ToString (or_else (field doctor ''avgTime'') (JNum 0)),
       call_action =
         (if ToBoolean (field doctor ''currentPatient'')
          then Some (field doctor ''doctor_id'') else None) \<rparr>"

text \<open>\<open>createDoctorCard\<close>: its first statement that reads the entry,
  \<^verbatim>\<open>card.dataset.id = doctor.doctor_id\<close>, throws when the entry is \<open>null\<close>.\<close>

definition createDoctorCard :: "jsval \<Rightarrow> error + card" where
  "createDoctorCard doctor =
     (case get_prop doctor ''doctor_id'' of
        Inl e \<Rightarrow> Inl e
      | Inr doctor_id \<Rightarrow> Inr (doctor_card doctor))"

section \<open>The dashboard state\<close>

text \<open>What \<^verbatim>\<open>#queue-container\<close> holds: markup of the page template (before the first
  rendering), the \<open>No Doctors Found\<close> panel, or doctor cards.\<close>

datatype node = PageMarkup string | EmptyState | DoctorCard card

text \<open>
  The global variables \<^verbatim>\<open>doctors\<close>, \<^verbatim>\<open>filteredDoctors\<close>, \<^verbatim>\<open>currentDepartment\<close> and the
  parts of the page the script writes: the value of \<^verbatim>\<open>#search-input\<close>, the children of
  \<^verbatim>\<open>#queue-container\<close>, the values assigned to the text of \<^verbatim>\<open>#doctor-count\<close> and
  \<^verbatim>\<open>#update-time\<close> (\<open>None\<close>: as in the page template), the notifications shown and the
  lines written by \<^verbatim>\<open>console.error\<close>, both oldest first, and the number of GET requests
  sent to \<^verbatim>\<open>window.QUEUE_API\<close>. The elements the script looks up by id or selector
  exist in the page. The clock, the \<open>active\<close> class of the department controls and the
  hiding of a notification after five seconds are left out.
\<close>

record state =
  doctors :: jsval
  filteredDoctors :: "jsval list"
  currentDepartment :: string
  searchInput :: string
  queueContainer :: "node list"
  doctorCount :: "jsval option"
  updateTime :: "string option"
  notifications :: "(string \<times> string) list"
  console :: "(string \<times> error) list"
  requests :: nat

text \<open>A statement either completes or throws; the state reached is kept in both cases.\<close>

datatype completion = Normal state | Thrown error state

fun state_of :: "completion \<Rightarrow> state" where
  "state_of (Normal s) = s"
| "state_of (Thrown e s) = s"

definition showNotification :: "string \<Rightarrow> string \<Rightarrow> state \<Rightarrow> state" where
  "showNotification title message s =
     s\<lparr>notifications := notifications s @ [(title, message)]\<rparr>"

definition console_error :: "string \<Rightarrow> error \<Rightarrow> state \<Rightarrow> state" where
  "console_error message e s = s\<lparr>console := console s @ [(message, e)]\<rparr>"

section \<open>Filtering and rendering\<close>

text \<open>The callback of \<^verbatim>\<open>doctors.filter\<close>, in the parts the source names.
  \<open>||\<close> evaluates its right operand only when the left one is false; both constants
  are computed before \<open>&&\<close>.\<close>

text \<open>\<^verbatim>\<open>currentDepartment === 'all' || doctor.department === currentDepartment\<close>\<close>

definition matchesDepartment :: "string \<Rightarrow> jsval \<Rightarrow> error + bool" where
  "matchesDepartment department doctor =
     (if department = ''all'' then Inr True
      else (case get_prop doctor ''department'' of
              Inl e \<Rightarrow> Inl e
            | Inr d \<Rightarrow> Inr (d = JStr department)))"

text \<open>\<^verbatim>\<open>doctor.k.toLowerCase().includes(searchTerm)\<close>\<close>

definition lower_includes :: "jsval \<Rightarrow> string \<Rightarrow> string \<Rightarrow> error + bool" where
  "lower_includes doctor k searchTerm =
     (case get_prop doctor k of
        Inl e \<Rightarrow> Inl e
      | Inr v \<Rightarrow>
         (case call_toLowerCase v of
            Inl e \<Rightarrow> Inl e
          | Inr l \<Rightarrow> Inr (str_includes l searchTerm)))"

definition matchesSearch :: "string \<Rightarrow> jsval \<Rightarrow> error + bool" where
  "matchesSearch searchTerm doctor =
     (if searchTerm = [] then Inr True
      else (case lower_includes doctor ''doctor_name'' searchTerm of
              Inl e \<Rightarrow> Inl e
            | Inr b \<Rightarrow>
                if b then Inr True
                else lower_includes doctor ''doctor_specialty'' searchTerm))"

definition matches :: "string \<Rightarrow> string \<Rightarrow> jsval \<Rightarrow> error + bool" where
  "matches department searchTerm doctor =
     (case matchesDepartment department doctor of
        Inl e \<Rightarrow> Inl e
      | Inr md \<Rightarrow>
         (case matchesSearch searchTerm doctor of
            Inl e \<Rightarrow> Inl e
          | Inr ms \<Rightarrow> Inr (md \<and> ms)))"

text \<open>\<^verbatim>\<open>Array.prototype.filter\<close> with a callback that may throw.\<close>

fun array_filter :: "(jsval \<Rightarrow> error + bool) \<Rightarrow> jsval list \<Rightarrow> error + jsval list" where
  "array_filter f [] = Inr []"
| "array_filter f (x # xs) =
     (case f x of
        Inl e \<Rightarrow> Inl e
      | Inr b \<Rightarrow>
         (case array_filter f xs of
            Inl e \<Rightarrow> Inl e
          | Inr ys \<Rightarrow> Inr (if b then x # ys else ys)))"

text \<open>The \<^verbatim>\<open>forEach\<close> of \<open>renderDoctors\<close>: cards already appended stay when a later
  entry throws.\<close>

fun append_cards :: "jsval list \<Rightarrow> state \<Rightarrow> completion" where
  "append_cards [] s = Normal s"
| "append_cards (doctor # rest) s =
     (case createDoctorCard doctor of
        Inl e \<Rightarrow> Thrown e s
      | Inr c \<Rightarrow> append_cards rest (s\<lparr>queueContainer := queueContainer s @ [DoctorCard c]\<rparr>))"

definition renderDoctors :: "state \<Rightarrow> completion" where
  "renderDoctors s =
     (let s1 = s\<lparr>queueContainer := []\<rparr> in
      if filteredDoctors s1 = [] then Normal (s1\<lparr>queueContainer := [EmptyState]\<rparr>)
      else append_cards (filteredDoctors s1) s1)"

text \<open>\<open>filterDoctors\<close>. \<^verbatim>\<open>doctors\<close> holds whatever the last response had under
  \<open>queues\<close>; only an array has a \<open>filter\<close> method. When the callback throws, the
  assignment to \<^verbatim>\<open>filteredDoctors\<close> does not happen.\<close>

definition filterDoctors :: "state \<Rightarrow> completion" where
  "filterDoctors s =
     (let searchTerm = toLowerCase (searchInput s) in
      case doctors s of
        JArr ds \<Rightarrow>
          (case array_filter (matches (currentDepartment s) searchTerm) ds of
             Inl e \<Rightarrow> Thrown e s
           | Inr fs \<Rightarrow> renderDoctors (s\<lparr>filteredDoctors := fs\<rparr>))
      | _ \<Rightarrow> Thrown TypeError s)"

section \<open>Refreshing and calling the next patient\<close>

text \<open>
  How a \<^verbatim>\<open>fetch\<close> settles: the promise is rejected, or it resolves to a response
  with its \<open>ok\<close> flag and its body as \<^verbatim>\<open>response.json()\<close> delivers it (\<open>None\<close>: the
  body is not JSON and \<open>json()\<close> rejects with a SyntaxError).
\<close>

datatype response = Rejected | Response bool "jsval option"

text \<open>
  \<open>loadDoctors\<close> is asynchronous. Calling it runs it up to \<^verbatim>\<open>await fetch(...)\<close>, which
  sends the request: \<open>loadDoctors_call\<close>. The rest runs when the fetch has settled:
  \<open>loadDoctors r now\<close>, where \<open>r\<close> is how it settled and \<open>now\<close> the clock reading
  printed by \<^verbatim>\<open>toLocaleTimeString\<close>. Nothing is read or written between the two awaits.
\<close>

definition loadDoctors_call :: "state \<Rightarrow> state" where
  "loadDoctors_call s = s\<lparr>requests := requests s + 1\<rparr>"

text \<open>The \<^verbatim>\<open>try\<close> block.\<close>

definition loadDoctors_try :: "response \<Rightarrow> string \<Rightarrow> state \<Rightarrow> completion" where
  "loadDoctors_try r now s =
     (case r of
        Rejected \<Rightarrow> Thrown FetchRejected s
      | Response ok body \<Rightarrow>
          if \<not> ok then Thrown (HttpError ''Network response was not ok'') s
          else (case body of
                  None \<Rightarrow> Thrown SyntaxError s
                | Some data \<Rightarrow>
                   (case get_prop data ''queues'' of
                      Inl e \<Rightarrow> Thrown e s
                    | Inr queues \<Rightarrow>
                        if ToBoolean queues then
                          (case filterDoctors
                                  (s\<lparr>doctors := queues,
                                     doctorCount := Some (field queues ''length'')\<rparr>) of
                             Thrown e s' \<Rightarrow> Thrown e s'
                           | Normal s' \<Rightarrow> Normal (s'\<lparr>updateTime := Some now\<rparr>))
                        else Normal s)))"

definition loadDoctors :: "response \<Rightarrow> string \<Rightarrow> state \<Rightarrow> state" where
  "loadDoctors r now s =
     (case loadDoctors_try r now s of
        Normal s' \<Rightarrow> s'
      | Thrown e s' \<Rightarrow>
          showNotification ''System Error''
            ''Failed to load queue data. Using cached data.''
            (console_error ''Error fetching queue data:'' e s'))"

text \<open>
  \<open>callNextPatient doctorId r\<close>: the function from its call to its end, \<open>r\<close> being how
  the POST settled. Before the fetch settles it only builds the URL
  (\<^verbatim>\<open>window.CALL_NEXT_API\<close> is a string of the host page) and sends the request, which
  touches nothing of the state. \<^verbatim>\<open>loadDoctors()\<close> is called without \<open>await\<close>: the call
  sends the GET request and returns.
\<close>

definition callNextPatient_try :: "jsval \<Rightarrow> response \<Rightarrow> state \<Rightarrow> completion" where
  "callNextPatient_try doctorId r s =
     (case r of
        Rejected \<Rightarrow> Thrown FetchRejected s
      | Response ok body \<Rightarrow>
          if \<not> ok then Thrown (HttpError ''Failed to call next patient'') s
          else (case body of
                  None \<Rightarrow> Thrown SyntaxError s
                | Some data \<Rightarrow>
                   (case get_prop data ''success'' of
                      Inl e \<Rightarrow> Thrown e s
                    | Inr success \<Rightarrow>
                        if ToBoolean success then
                          Normal (loadDoctors_call
                                    (showNotification ''Patient Called''
                                       (''Next patient called for doctor '' @ ToString doctorId)
                                       s))
                        else Normal s)))"

definition callNextPatient :: "jsval \<Rightarrow> response \<Rightarrow> state \<Rightarrow> state" where
  "callNextPatient doctorId r s =
     (case callNextPatient_try doctorId r s of
        Normal s' \<Rightarrow> s'
      | Thrown e s' \<Rightarrow>
          showNotification ''System Error'' ''Failed to call next patient''
            (console_error ''Error calling next patient:'' e s'))"

section \<open>The controller as a transition system\<close>

text \<open>
  What can happen after \<open>init\<close>: the 15-second timer fires, a GET or a POST settles,
  the user picks a department, edits the search text or presses one of the control
  buttons, the start-up timeout expires. A department control hands over the string of
  its \<open>data-department\<close> attribute. An exception that leaves a listener is reported by
  the browser and the page goes on with the state reached. Which requests are still
  under way is not recorded: a response may settle at any time and in any order, so the
  runs of \<open>step\<close> include every interleaving the page can see.
\<close>

datatype event =
    TimerTick
  | QueueResponse response string
  | DepartmentClick string
  | SearchInput string
  | CallNextSettled jsval response
  | ReadyTimeout
  | SettingsClick
  | ReportsClick
  | AdminClick

fun step :: "event \<Rightarrow> state \<Rightarrow> state" where
  "step TimerTick s = loadDoctors_call s"
| "step (QueueResponse r now) s = loadDoctors r now s"
| "step (DepartmentClick department) s =
     state_of (filterDoctors (s\<lparr>currentDepartment := department\<rparr>))"
| "step (SearchInput v) s = state_of (filterDoctors (s\<lparr>searchInput := v\<rparr>))"
| "step (CallNextSettled doctorId r) s = callNextPatient doctorId r s"
| "step ReadyTimeout s =
     showNotification ''System Ready'' ''Clinic queue system initialized'' s"
| "step SettingsClick s = showNotification ''Settings'' ''System settings panel opened'' s"
| "step ReportsClick s =
     showNotification ''Reports'' ''Generating system performance reports...'' s"
| "step AdminClick s =
     showNotification ''Admin Panel'' ''Accessed system administration controls'' s"

fun run :: "event list \<Rightarrow> state \<Rightarrow> state" where
  "run [] s = s"
| "run (e # es) s = run es (step e s)"

text \<open>The state when \<open>init\<close> returns: the globals as declared, the first
  \<open>loadDoctors\<close> called, the page as its template made it (\<open>template\<close>: the children
  of the container, \<open>typed\<close>: the value of the search field).\<close>

definition init_state :: "node list \<Rightarrow> string \<Rightarrow> state" where
  "init_state template typed =
     loadDoctors_call
       \<lparr> doctors = JArr [], filteredDoctors = [], currentDepartment = ''all'',
         searchInput = typed, queueContainer = template, doctorCount = None,
         updateTime = None, notifications = [], console = [], requests = 0 \<rparr>"

section \<open>The specification's view of the dashboard\<close>

text \<open>
  The data model of the specification: a doctor queue entry is an object with a display
  name and a specialty, both strings; a snapshot is an array of such entries.
\<close>

fun is_string :: "jsval \<Rightarrow> bool" where
  "is_string (JStr s) = True"
| "is_string v = False"

fun wf_entry :: "jsval \<Rightarrow> bool" where
  "wf_entry (JObj kvs) =
     (is_string (field (JObj kvs) ''doctor_name'') \<and>
      is_string (field (JObj kvs) ''doctor_specialty''))"
| "wf_entry v = False"

fun wf_snapshot :: "jsval \<Rightarrow> bool" where
  "wf_snapshot (JArr S) = list_all wf_entry S"
| "wf_snapshot v = False"

text \<open>
  The matching rule in the specification's words: an entry matches when (department is
  \<open>all\<close> or the entry's department equals the selected one) and (the search text is
  empty or the entry's name or specialty contains the search text, case-insensitively).
\<close>

fun contains_ci :: "jsval \<Rightarrow> string \<Rightarrow> bool" where
  "contains_ci (JStr s) t = str_includes (toLowerCase s) (toLowerCase t)"
| "contains_ci v t = False"

definition spec_matches :: "string \<Rightarrow> string \<Rightarrow> jsval \<Rightarrow> bool" where
  "spec_matches department searchText entry =
     ((department = ''all'' \<or> field entry ''department'' = JStr department) \<and>
      (searchText = [] \<or>
       contains_ci (field entry ''doctor_name'') searchText \<or>
       contains_ci (field entry ''doctor_specialty'') searchText))"

text \<open>Rendering as a pure function of snapshot and filter state: one card per matching
  entry, in the snapshot's order, or the \<open>No Doctors Found\<close> panel when none matches.\<close>

definition spec_render :: "jsval list \<Rightarrow> node list" where
  "spec_render entries =
     (if entries = [] then [EmptyState] else map (\<lambda>d. DoctorCard (doctor_card d)) entries)"

definition spec_view :: "jsval list \<Rightarrow> string \<Rightarrow> string \<Rightarrow> node list" where
  "spec_view S department searchText =
     spec_render (filter (spec_matches department searchText) S)"

text \<open>The invariant: the container shows the projection of the snapshot in memory under
  the filter state in force.\<close>

fun view_of :: "jsval \<Rightarrow> string \<Rightarrow> string \<Rightarrow> node list option" where
  "view_of (JArr S) department searchText = Some (spec_view S department searchText)"
| "view_of v department searchText = None"

definition view_inv :: "state \<Rightarrow> bool" where
  "view_inv s =
     (view_of (doctors s) (currentDepartment s) (searchInput s) = Some (queueContainer s))"

text \<open>A response is well formed when the \<open>queues\<close> it carries, if any, is a snapshot.\<close>

fun wf_response :: "response \<Rightarrow> bool" where
  "wf_response (Response True (Some data)) =
     (nullish data \<or> \<not> ToBoolean (field data ''queues'') \<or>
      wf_snapshot (field data ''queues''))"
| "wf_response r = True"

fun wf_event :: "event \<Rightarrow> bool" where
  "wf_event (QueueResponse r now) = wf_response r"
| "wf_event e = True"

text \<open>A response that delivers a snapshot.\<close>

fun delivers :: "response \<Rightarrow> bool" where
  "delivers (Response True (Some data)) =
     (\<not> nullish data \<and> ToBoolean (field data ''queues''))"
| "delivers r = False"

text \<open>The operations that render: a refresh that delivers a snapshot, and the two
  filter changes.\<close>

fun renders :: "event \<Rightarrow> bool" where
  "renders (QueueResponse r now) = delivers r"
| "renders (DepartmentClick department) = True"
| "renders (SearchInput v) = True"
| "renders e = False"

text \<open>
  Read off a sequence of events alone: the snapshot most recently delivered (the empty
  one before any was), the department most recently picked and the search text most
  recently typed.
\<close>

fun queues_of :: "response \<Rightarrow> jsval" where
  "queues_of (Response ok (Some data)) = field data ''queues''"
| "queues_of r = JUndefined"

fun snapshot_after :: "jsval \<Rightarrow> event \<Rightarrow> jsval" where
  "snapshot_after S (QueueResponse r now) = (if delivers r then queues_of r else S)"
| "snapshot_after S e = S"

fun department_after :: "string \<Rightarrow> event \<Rightarrow> string" where
  "department_after d (DepartmentClick department) = department"
| "department_after d e = d"

fun search_after :: "string \<Rightarrow> event \<Rightarrow> string" where
  "search_after t (SearchInput v) = v"
| "search_after t e = t"

definition last_snapshot :: "event list \<Rightarrow> jsval" where
  "last_snapshot es = foldl snapshot_after (JArr []) es"

definition last_department :: "event list \<Rightarrow> string" where
  "last_department es = foldl department_after ''all'' es"

definition last_search :: "string \<Rightarrow> event list \<Rightarrow> string" where
  "last_search typed es = foldl search_after typed es"

section \<open>Failures of a request\<close>

text \<open>
  The ways a request fails that end in the \<^verbatim>\<open>catch\<close> block before anything is
  assigned: the fetch is rejected, the status is not 2xx, the body is not JSON, or the
  body is \<open>null\<close>, of which no property can be read.
\<close>

fun request_fails :: "response \<Rightarrow> bool" where
  "request_fails Rejected = True"
| "request_fails (Response ok None) = True"
| "request_fails (Response ok (Some data)) = (\<not> ok \<or> nullish data)"

text \<open>A 2xx JSON body in which \<open>queues\<close> is absent or falsy.\<close>

fun no_queues :: "response \<Rightarrow> bool" where
  "no_queues (Response True (Some data)) =
     (\<not> nullish data \<and> \<not> ToBoolean (field data ''queues''))"
| "no_queues r = False"

text \<open>A 2xx JSON body in which \<open>success\<close> is truthy, and one in which it is absent or
  falsy.\<close>

fun reports_success :: "response \<Rightarrow> bool" where
  "reports_success (Response True (Some data)) =
     (\<not> nullish data \<and> ToBoolean (field data ''success''))"
| "reports_success r = False"

fun reports_failure :: "response \<Rightarrow> bool" where
  "reports_failure (Response True (Some data)) =
     (\<not> nullish data \<and> \<not> ToBoolean (field data ''success''))"
| "reports_failure r = False"

text \<open>What the specification asks of a failed refresh leading from \<open>s\<close> to \<open>s'\<close>: the
  snapshot is as before, and exactly one notice and one console line were added.\<close>

definition refresh_failure_handled :: "state \<Rightarrow> state \<Rightarrow> bool" where
  "refresh_failure_handled s s' =
     (doctors s' = doctors s \<and>
      length (notifications s') = length (notifications s) + 1 \<and>
      length (console s') = length (console s) + 1)"

text \<open>What the specification asks of a failed call-next leading from \<open>s\<close> to \<open>s'\<close>: a
  notice was shown, and snapshot, filter state and view are as before.\<close>

definition call_failure_handled :: "state \<Rightarrow> state \<Rightarrow> bool" where
  "call_failure_handled s s' =
     (length (notifications s) < length (notifications s') \<and>
      doctors s' = doctors s \<and>
      currentDepartment s' = currentDepartment s \<and>
      searchInput s' = searchInput s \<and>
      queueContainer s' = queueContainer s)"

section \<open>Example data\<close>

definition dr_lee :: jsval where
  "dr_lee =
     JObj [(''doctor_id'', JNum 42), (''doctor_name'', JStr ''Dr. Lee''),
           (''doctor_specialty'', JStr ''Heart surgery''),
           (''department'', JStr ''cardiology''), (''status'', JStr ''in-session''),
           (''currentPatient'',
              JObj [(''number'', JNum 7), (''name'', JStr ''Ann''),
                    (''case'', JStr ''urgent''), (''time'', JStr ''10:00'')]),
           (''waiting'', JArr [JObj [], JObj []]), (''avgTime'', JNum 12)]"

definition dr_kim :: jsval where
  "dr_kim =
     JObj [(''doctor_id'', JNum 43), (''doctor_name'', JStr ''Dr. Kim''),
           (''doctor_specialty'', JStr ''Sleep medicine''),
           (''department'', JStr ''neurology''), (''status'', JStr ''on-leave'')]"

definition dr_roy :: jsval where
  "dr_roy =
     JObj [(''doctor_id'', JNum 44), (''doctor_name'', JStr ''Dr. Roy''),
           (''doctor_specialty'', JStr ''Valve repair''),
           (''department'', JStr ''cardiology''), (''status'', JStr ''available''),
           (''currentPatient'',
              JObj [(''number'', JNum 3), (''name'', JStr ''Ben''),
                    (''case'', JStr ''emergency''), (''time'', JStr ''10:05'')])]"

definition example_entries :: "jsval list" where
  "example_entries = [dr_lee, dr_kim, dr_roy]"

definition example_reply :: response where
  "example_reply = Response True (Some (JObj [(''queues'', JArr example_entries)]))"

text \<open>A 2xx reply whose \<open>queues\<close> is an array with a \<open>null\<close> among the entries.\<close>

definition broken_reply :: response where
  "broken_reply = Response True (Some (JObj [(''queues'', JArr [dr_lee, JNull])]))"

definition example_state :: state where
  "example_state =
     (init_state [] [])\<lparr>doctors := JArr example_entries,
                          currentDepartment := ''cardiology'', searchInput := ''LEE''\<rparr>"

definition example_events :: "event list" where
  "example_events =
     [QueueResponse Rejected ''9:59 AM'',
      QueueResponse example_reply ''10:00 AM'',
      DepartmentClick ''cardiology'',
      SearchInput ''LEE'',
      CallNextSettled (JNum 42) (Response True (Some (JObj [(''success'', JBool True)]))),
      TimerTick]"

section \<open>Properties of filtering and rendering\<close>

text \<open>\<open>str_includes\<close> is the substring test.\<close>

lemma is_prefix_iff: "is_prefix t s \<longleftrightarrow> (\<exists>q. s = t @ q)"
  by (induction t s rule: is_prefix.induct) auto

lemma str_includes_iff: "str_includes s t \<longleftrightarrow> (\<exists>p q. s = p @ t @ q)"
proof (induction s)
  case Nil
  then show ?case by simp
next
  case (Cons c cs)
  show ?case
  proof
    assume "str_includes (c # cs) t"
    then consider "is_prefix t (c # cs)" | "str_includes cs t" by auto
    then show "\<exists>p q. c # cs = p @ t @ q"
    proof cases
      case 1
      then obtain q where "c # cs = t @ q" by (auto simp: is_prefix_iff)
      then have "c # cs = [] @ t @ q" by simp
      then show ?thesis by blast
    next
      case 2
      with Cons obtain p q where "cs = p @ t @ q" by auto
      then have "c # cs = (c # p) @ t @ q" by simp
      then show ?thesis by blast
    qed
  next
    assume "\<exists>p q. c # cs = p @ t @ q"
    then obtain p q where pq: "c # cs = p @ t @ q" by auto
    show "str_includes (c # cs) t"
    proof (cases p)
      case Nil
      with pq have "is_prefix t (c # cs)" by (auto simp: is_prefix_iff)
      then show ?thesis by simp
    next
      case (Cons a p')
      with pq have "cs = p' @ t @ q" by simp
      with Cons.IH have "str_includes cs t" by blast
      then show ?thesis by simp
    qed
  qed
qed

lemma toLowerCase_Nil_iff: "toLowerCase s = [] \<longleftrightarrow> s = []"
  by (simp add: toLowerCase_def)

lemma matches_wf_entry:
  "wf_entry d \<Longrightarrow> matches department (toLowerCase searchText) d = Inr (spec_matches department searchText d)"
  by (cases d; cases "field d ''doctor_name''"; cases "field d ''doctor_specialty''")
     (auto simp: matches_def matchesDepartment_def matchesSearch_def lower_includes_def
        get_prop_def spec_matches_def toLowerCase_Nil_iff)

lemma array_filter_total:
  "(\<And>x. x \<in> set xs \<Longrightarrow> f x = Inr (P x)) \<Longrightarrow> array_filter f xs = Inr (filter P xs)"
  by (induction xs) auto

lemma createDoctorCard_not_nullish:
  "\<not> nullish d \<Longrightarrow> createDoctorCard d = Inr (doctor_card d)"
  by (simp add: createDoctorCard_def get_prop_def)

lemma append_cards_ok:
  "(\<And>d. d \<in> set ds \<Longrightarrow> \<not> nullish d) \<Longrightarrow>
   append_cards ds s =
     Normal (s\<lparr>queueContainer := queueContainer s @ map (\<lambda>d. DoctorCard (doctor_card d)) ds\<rparr>)"
  by (induction ds arbitrary: s) (auto simp: createDoctorCard_not_nullish)

lemma renderDoctors_ok:
  "(\<And>d. d \<in> set (filteredDoctors s) \<Longrightarrow> \<not> nullish d) \<Longrightarrow>
   renderDoctors s = Normal (s\<lparr>queueContainer := spec_render (filteredDoctors s)\<rparr>)"
  by (simp add: renderDoctors_def spec_render_def append_cards_ok)

lemma wf_entry_not_nullish: "wf_entry d \<Longrightarrow> \<not> nullish d"
  by (cases d) auto

lemma filterDoctors_wf:
  assumes "doctors s = JArr S" and "list_all wf_entry S"
  shows "filterDoctors s =
     Normal (s\<lparr>filteredDoctors := filter (spec_matches (currentDepartment s) (searchInput s)) S,
               queueContainer := spec_view S (currentDepartment s) (searchInput s)\<rparr>)"
proof -
  let ?fs = "filter (spec_matches (currentDepartment s) (searchInput s)) S"
  have wf: "\<And>d. d \<in> set S \<Longrightarrow> wf_entry d"
    using assms(2) by (simp add: list_all_iff)
  have "array_filter (matches (currentDepartment s) (toLowerCase (searchInput s))) S = Inr ?fs"
    by (rule array_filter_total) (simp add: matches_wf_entry wf)
  moreover have "renderDoctors (s\<lparr>filteredDoctors := ?fs\<rparr>) =
      Normal (s\<lparr>filteredDoctors := ?fs, queueContainer := spec_render ?fs\<rparr>)"
    by (subst renderDoctors_ok) (auto simp: wf wf_entry_not_nullish)
  ultimately show ?thesis
    using assms(1) by (simp add: filterDoctors_def spec_view_def)
qed


subsection \<open>What filtering and rendering leave alone\<close>

lemma append_cards_frame:
  "doctors (state_of (append_cards ds s)) = doctors s \<and>
   filteredDoctors (state_of (append_cards ds s)) = filteredDoctors s \<and>
   currentDepartment (state_of (append_cards ds s)) = currentDepartment s \<and>
   searchInput (state_of (append_cards ds s)) = searchInput s \<and>
   doctorCount (state_of (append_cards ds s)) = doctorCount s \<and>
   updateTime (state_of (append_cards ds s)) = updateTime s \<and>
   notifications (state_of (append_cards ds s)) = notifications s \<and>
   console (state_of (append_cards ds s)) = console s \<and>
   requests (state_of (append_cards ds s)) = requests s"
  by (induction ds arbitrary: s) (auto split: sum.splits)

lemma renderDoctors_frame:
  "doctors (state_of (renderDoctors s)) = doctors s \<and>
   filteredDoctors (state_of (renderDoctors s)) = filteredDoctors s \<and>
   currentDepartment (state_of (renderDoctors s)) = currentDepartment s \<and>
   searchInput (state_of (renderDoctors s)) = searchInput s \<and>
   doctorCount (state_of (renderDoctors s)) = doctorCount s \<and>
   updateTime (state_of (renderDoctors s)) = updateTime s \<and>
   notifications (state_of (renderDoctors s)) = notifications s \<and>
   console (state_of (renderDoctors s)) = console s \<and>
   requests (state_of (renderDoctors s)) = requests s"
  by (simp add: renderDoctors_def Let_def append_cards_frame)

lemma filterDoctors_frame:
  "doctors (state_of (filterDoctors s)) = doctors s \<and>
   currentDepartment (state_of (filterDoctors s)) = currentDepartment s \<and>
   searchInput (state_of (filterDoctors s)) = searchInput s \<and>
   doctorCount (state_of (filterDoctors s)) = doctorCount s \<and>
   updateTime (state_of (filterDoctors s)) = updateTime s \<and>
   notifications (state_of (filterDoctors s)) = notifications s \<and>
   console (state_of (filterDoctors s)) = console s \<and>
   requests (state_of (filterDoctors s)) = requests s"
  by (simp add: filterDoctors_def Let_def renderDoctors_frame split: jsval.splits sum.splits)


subsection \<open>Requests and steps\<close>

lemma filterDoctors_view_inv:
  "wf_snapshot (doctors s) \<Longrightarrow> view_inv (state_of (filterDoctors s))"
  by (cases "doctors s") (simp_all add: filterDoctors_wf view_inv_def)

lemma loadDoctors_request_fails:
  "request_fails r \<Longrightarrow>
   \<exists>e. loadDoctors r now s =
     showNotification ''System Error'' ''Failed to load queue data. Using cached data.''
       (console_error ''Error fetching queue data:'' e s)"
  by (cases r rule: request_fails.cases)
     (auto simp: loadDoctors_def loadDoctors_try_def get_prop_def)

lemma loadDoctors_no_queues: "no_queues r \<Longrightarrow> loadDoctors r now s = s"
  by (cases r rule: no_queues.cases)
     (auto simp: loadDoctors_def loadDoctors_try_def get_prop_def)

lemma loadDoctors_delivers:
  assumes "delivers (Response True (Some data))" and "field data ''queues'' = JArr S"
    and "list_all wf_entry S"
  shows "loadDoctors (Response True (Some data)) now s =
     s\<lparr>doctors := JArr S, doctorCount := Some (JNum (int (length S))),
       filteredDoctors := filter (spec_matches (currentDepartment s) (searchInput s)) S,
       queueContainer := spec_view S (currentDepartment s) (searchInput s),
       updateTime := Some now\<rparr>"
proof -
  let ?s1 = "s\<lparr>doctors := JArr S, doctorCount := Some (field (JArr S) ''length'')\<rparr>"
  have "filterDoctors ?s1 =
     Normal (?s1\<lparr>filteredDoctors := filter (spec_matches (currentDepartment ?s1) (searchInput ?s1)) S,
               queueContainer := spec_view S (currentDepartment ?s1) (searchInput ?s1)\<rparr>)"
    by (rule filterDoctors_wf) (simp_all add: assms(3))
  then show ?thesis
    using assms(1,2) by (simp add: loadDoctors_def loadDoctors_try_def get_prop_def)
qed

lemma response_cases:
  "request_fails r \<or> no_queues r \<or> delivers r"
proof (cases r)
  case Rejected
  then show ?thesis by simp
next
  case (Response ok body)
  then show ?thesis by (cases body; cases ok) auto
qed

lemma callNextPatient_request_fails:
  "request_fails r \<Longrightarrow>
   \<exists>e. callNextPatient doctorId r s =
     showNotification ''System Error'' ''Failed to call next patient''
       (console_error ''Error calling next patient:'' e s)"
  by (cases r rule: request_fails.cases)
     (auto simp: callNextPatient_def callNextPatient_try_def get_prop_def)

lemma callNextPatient_reports_failure:
  "reports_failure r \<Longrightarrow> callNextPatient doctorId r s = s"
  by (cases r rule: reports_failure.cases)
     (auto simp: callNextPatient_def callNextPatient_try_def get_prop_def)

lemma callNextPatient_reports_success:
  "reports_success r \<Longrightarrow>
   callNextPatient doctorId r s =
     s\<lparr>notifications := notifications s @
          [(''Patient Called'', ''Next patient called for doctor '' @ ToString doctorId)],
       requests := requests s + 1\<rparr>"
  by (cases r rule: reports_success.cases)
     (auto simp: callNextPatient_def callNextPatient_try_def get_prop_def
        showNotification_def loadDoctors_call_def)

lemma call_cases: "request_fails r \<or> reports_failure r \<or> reports_success r"
proof (cases r)
  case Rejected
  then show ?thesis by simp
next
  case (Response ok body)
  then show ?thesis by (cases body; cases ok) auto
qed

lemma step_doctors_wf:
  assumes "wf_snapshot (doctors s)" and "wf_event e"
  shows "wf_snapshot (doctors (step e s))"
proof (cases e)
  case (QueueResponse r now)
  consider "request_fails r" | "no_queues r" | "delivers r" using response_cases by blast
  then show ?thesis
  proof cases
    case 1
    then obtain err where "loadDoctors r now s =
       showNotification ''System Error'' ''Failed to load queue data. Using cached data.''
         (console_error ''Error fetching queue data:'' err s)"
      using loadDoctors_request_fails by blast
    with assms QueueResponse show ?thesis
      by (simp add: showNotification_def console_error_def)
  next
    case 2
    with assms QueueResponse show ?thesis by (simp add: loadDoctors_no_queues)
  next
    case 3
    then obtain data where r: "r = Response True (Some data)"
      by (cases r rule: delivers.cases) auto
    with 3 assms(2) QueueResponse have "wf_snapshot (field data ''queues'')" by simp
    then obtain S where S: "field data ''queues'' = JArr S" "list_all wf_entry S"
      by (cases "field data ''queues''") auto
    with 3 r have "doctors (loadDoctors r now s) = JArr S"
      by (simp add: loadDoctors_delivers)
    with S QueueResponse show ?thesis by simp
  qed
next
  case (CallNextSettled doctorId r)
  consider "request_fails r" | "reports_failure r" | "reports_success r"
    using call_cases by blast
  then show ?thesis
  proof cases
    case 1
    then obtain err where "callNextPatient doctorId r s =
       showNotification ''System Error'' ''Failed to call next patient''
         (console_error ''Error calling next patient:'' err s)"
      using callNextPatient_request_fails by blast
    with assms CallNextSettled show ?thesis
      by (simp add: showNotification_def console_error_def)
  next
    case 2
    with assms CallNextSettled show ?thesis by (simp add: callNextPatient_reports_failure)
  next
    case 3
    with assms CallNextSettled show ?thesis by (simp add: callNextPatient_reports_success)
  qed
qed (use assms in \<open>simp_all add: filterDoctors_frame showNotification_def loadDoctors_call_def\<close>)

lemma step_view_inv:
  assumes "wf_snapshot (doctors s)" and "wf_event e" and "view_inv s \<or> renders e"
  shows "view_inv (step e s)"
proof (cases e)
  case (QueueResponse r now)
  consider "request_fails r" | "no_queues r" | "delivers r" using response_cases by blast
  then show ?thesis
  proof cases
    case 1
    then have nd: "\<not> delivers r" by (cases r rule: delivers.cases) auto
    from 1 obtain err where "loadDoctors r now s =
       showNotification ''System Error'' ''Failed to load queue data. Using cached data.''
         (console_error ''Error fetching queue data:'' err s)"
      using loadDoctors_request_fails by blast
    with assms(3) nd QueueResponse show ?thesis
      by (simp add: view_inv_def showNotification_def console_error_def)
  next
    case 2
    then have nd: "\<not> delivers r" by (cases r rule: delivers.cases) auto
    with 2 assms(3) QueueResponse show ?thesis by (simp add: loadDoctors_no_queues)
  next
    case 3
    then obtain data where r: "r = Response True (Some data)"
      by (cases r rule: delivers.cases) auto
    with 3 assms(2) QueueResponse have "wf_snapshot (field data ''queues'')" by simp
    then obtain S where S: "field data ''queues'' = JArr S" "list_all wf_entry S"
      by (cases "field data ''queues''") auto
    with 3 r QueueResponse show ?thesis
      by (simp add: loadDoctors_delivers view_inv_def)
  qed
next
  case (CallNextSettled doctorId r)
  consider "request_fails r" | "reports_failure r" | "reports_success r"
    using call_cases by blast
  then show ?thesis
  proof cases
    case 1
    then obtain err where "callNextPatient doctorId r s =
       showNotification ''System Error'' ''Failed to call next patient''
         (console_error ''Error calling next patient:'' err s)"
      using callNextPatient_request_fails by blast
    with assms(3) CallNextSettled show ?thesis
      by (simp add: view_inv_def showNotification_def console_error_def)
  next
    case 2
    with assms(3) CallNextSettled show ?thesis by (simp add: callNextPatient_reports_failure)
  next
    case 3
    with assms(3) CallNextSettled show ?thesis
      by (simp add: callNextPatient_reports_success view_inv_def)
  qed
next
  case (DepartmentClick d)
  with assms(1) show ?thesis by (simp add: filterDoctors_view_inv)
next
  case (SearchInput v)
  with assms(1) show ?thesis by (simp add: filterDoctors_view_inv)
qed (use assms(3) in \<open>simp_all add: view_inv_def showNotification_def loadDoctors_call_def\<close>)

lemma run_view_inv:
  "wf_snapshot (doctors s) \<Longrightarrow> list_all wf_event es \<Longrightarrow> view_inv s \<or> list_ex renders es \<Longrightarrow>
   view_inv (run es s)"
proof (induction es arbitrary: s)
  case Nil
  then show ?case by simp
next
  case (Cons e es)
  have wf': "wf_snapshot (doctors (step e s))"
    using Cons.prems by (simp add: step_doctors_wf)
  show ?case
  proof (cases "view_inv s \<or> renders e")
    case True
    with Cons.prems have "view_inv (step e s)" by (simp add: step_view_inv)
    with Cons.IH[OF wf'] Cons.prems show ?thesis by simp
  next
    case False
    with Cons.prems have "list_ex renders es" by simp
    with Cons.IH[OF wf'] Cons.prems show ?thesis by simp
  qed
qed

lemma example_entries_wf: "list_all wf_entry example_entries"
  by (simp add: example_entries_def dr_lee_def dr_kim_def dr_roy_def)

lemma example_filter:
  "filter (spec_matches ''cardiology'' ''LEE'') example_entries = [dr_lee]"
  by (simp add: example_entries_def dr_lee_def dr_kim_def dr_roy_def spec_matches_def
      toLowerCase_def lower_char_def)

lemma example_events_wf: "list_all wf_event example_events"
  using example_entries_wf by (simp add: example_events_def example_reply_def)

lemma example_events_render: "list_ex renders example_events"
  by (simp add: example_events_def)

lemma init_state_wf: "wf_snapshot (doctors (init_state template typed))"
  by (simp add: init_state_def loadDoctors_call_def)

lemma dec_int_0: "dec_int 0 = ''0''"
  by (simp add: dec_int_def digit_def)

subsection \<open>What a run leaves in the globals\<close>

lemma loadDoctors_frame:
  "doctors (loadDoctors r now s) = snapshot_after (doctors s) (QueueResponse r now) \<and>
   currentDepartment (loadDoctors r now s) = currentDepartment s \<and>
   searchInput (loadDoctors r now s) = searchInput s \<and>
   requests (loadDoctors r now s) = requests s"
proof -
  consider "request_fails r" | "no_queues r" | "delivers r" using response_cases by blast
  then show ?thesis
  proof cases
    case 1
    then have nd: "\<not> delivers r" by (cases r rule: delivers.cases) auto
    from 1 obtain err where "loadDoctors r now s =
       showNotification ''System Error'' ''Failed to load queue data. Using cached data.''
         (console_error ''Error fetching queue data:'' err s)"
      using loadDoctors_request_fails by blast
    with nd show ?thesis
      by (simp add: showNotification_def console_error_def)
  next
    case 2
    then have nd: "\<not> delivers r" by (cases r rule: delivers.cases) auto
    with 2 show ?thesis
      by (simp add: loadDoctors_no_queues)
  next
    case 3
    then obtain data where r: "r = Response True (Some data)"
      by (cases r rule: delivers.cases) auto
    let ?s1 = "s\<lparr>doctors := field data ''queues'',
                  doctorCount := Some (field (field data ''queues'') ''length'')\<rparr>"
    show ?thesis
    proof (cases "filterDoctors ?s1")
      case (Normal s')
      with filterDoctors_frame[of ?s1] 3 r show ?thesis
        by (simp add: loadDoctors_def loadDoctors_try_def get_prop_def)
    next
      case (Thrown e s')
      with filterDoctors_frame[of ?s1] 3 r show ?thesis
        by (simp add: loadDoctors_def loadDoctors_try_def get_prop_def showNotification_def
            console_error_def)
    qed
  qed
qed

lemma callNextPatient_frame:
  "doctors (callNextPatient doctorId r s) = doctors s \<and>
   currentDepartment (callNextPatient doctorId r s) = currentDepartment s \<and>
   searchInput (callNextPatient doctorId r s) = searchInput s \<and>
   queueContainer (callNextPatient doctorId r s) = queueContainer s"
proof -
  consider "request_fails r" | "reports_failure r" | "reports_success r"
    using call_cases by blast
  then show ?thesis
  proof cases
    case 1
    then obtain err where "callNextPatient doctorId r s =
       showNotification ''System Error'' ''Failed to call next patient''
         (console_error ''Error calling next patient:'' err s)"
      using callNextPatient_request_fails by blast
    then show ?thesis by (simp add: showNotification_def console_error_def)
  next
    case 2
    then show ?thesis by (simp add: callNextPatient_reports_failure)
  next
    case 3
    then show ?thesis by (simp add: callNextPatient_reports_success)
  qed
qed

lemma step_tracks:
  "doctors (step e s) = snapshot_after (doctors s) e \<and>
   currentDepartment (step e s) = department_after (currentDepartment s) e \<and>
   searchInput (step e s) = search_after (searchInput s) e"
proof (cases e)
  case (QueueResponse r now)
  then show ?thesis using loadDoctors_frame[of r now s] by simp
next
  case (CallNextSettled doctorId r)
  then show ?thesis using callNextPatient_frame[of doctorId r s] by simp
qed (simp_all add: filterDoctors_frame showNotification_def loadDoctors_call_def)

lemma run_tracks:
  "doctors (run es s) = foldl snapshot_after (doctors s) es \<and>
   currentDepartment (run es s) = foldl department_after (currentDepartment s) es \<and>
   searchInput (run es s) = foldl search_after (searchInput s) es"
  by (induction es arbitrary: s) (simp_all add: step_tracks)

lemma init_state_tracks:
  "doctors (run es (init_state template typed)) = last_snapshot es \<and>
   currentDepartment (run es (init_state template typed)) = last_department es \<and>
   searchInput (run es (init_state template typed)) = last_search typed es"
  by (simp add: run_tracks last_snapshot_def last_department_def last_search_def
      init_state_def loadDoctors_call_def)

lemma example_last:
  "last_snapshot example_events = JArr example_entries"
  "last_department example_events = ''cardiology''"
  "last_search [] example_events = ''LEE''"
  by (simp_all add: last_snapshot_def last_department_def last_search_def example_events_def
      example_reply_def)

subsection \<open>Two runs that leave the view behind\<close>

lemma rejected_first:
  "queueContainer (run [QueueResponse Rejected ''9:59 AM''] (init_state [] [])) = []"
  by (simp add: init_state_def loadDoctors_call_def loadDoctors_def loadDoctors_try_def
      showNotification_def console_error_def)

lemma broken_reply_view:
  "queueContainer (run [QueueResponse broken_reply ''10:00 AM''] (init_state [] [])) =
     [DoctorCard (doctor_card dr_lee)]"
proof -
  have a: "createDoctorCard dr_lee = Inr (doctor_card dr_lee)"
    by (simp add: createDoctorCard_not_nullish dr_lee_def)
  have b: "createDoctorCard JNull = Inl TypeError"
    by (simp add: createDoctorCard_def get_prop_def)
  show ?thesis
    by (simp add: broken_reply_def init_state_def loadDoctors_call_def loadDoctors_def
        loadDoctors_try_def get_prop_def filterDoctors_def toLowerCase_def matches_def
        matchesDepartment_def matchesSearch_def renderDoctors_def Let_def a b
        showNotification_def console_error_def)
qed

section \<open>The claims\<close>

text \<open>
  C1. For every snapshot \<open>S\<close> of doctor entries (objects with a string name and a string
  specialty) and every filter state (department, search text), \<open>filterDoctors\<close> completes and the rendered list holds exactly the
  entries of \<open>S\<close> for which (the department is \<open>all\<close> or equals the entry's) and (the
  search text is empty or occurs, ignoring case, in the entry's name or specialty), in
  the order of \<open>S\<close>: \<open>filter\<close> keeps order and multiplicity, and \<open>spec_render\<close> makes
  one card per entry.
\<close>

theorem filterDoctors_renders_matching_entries:
  assumes "doctors s = JArr S" and "list_all wf_entry S"
  shows "\<exists>s'. filterDoctors s = Normal s' \<and>
           filteredDoctors s' = filter (spec_matches (currentDepartment s) (searchInput s)) S \<and>
           queueContainer s' = spec_render (filteredDoctors s')"
  using filterDoctors_wf[OF assms] by (simp add: spec_view_def)

theorem filterDoctors_renders_matching_entries_witness:
  "doctors example_state = JArr example_entries \<and> list_all wf_entry example_entries \<and>
   (\<exists>s'. filterDoctors example_state = Normal s' \<and> filteredDoctors s' = [dr_lee] \<and>
         queueContainer s' = [DoctorCard (doctor_card dr_lee)])"
proof -
  have d: "doctors example_state = JArr example_entries"
    by (simp add: example_state_def)
  have f: "currentDepartment example_state = ''cardiology''" "searchInput example_state = ''LEE''"
    by (simp_all add: example_state_def)
  show ?thesis
    using filterDoctors_renders_matching_entries[OF d example_entries_wf] d example_entries_wf
    by (auto simp: f example_filter spec_render_def)
qed

text \<open>
  C2, as stated, fails, in two ways. When the first refresh is rejected, the container
  still holds what the page template put there (here: nothing), not the
  \<open>No Doctors Found\<close> panel that is the projection of the empty snapshot. When a 2xx
  reply carries \<open>queues\<close> with a \<open>null\<close> entry, \<open>doctors\<close> is assigned, the rendering
  throws at that entry and the container keeps the one card made before it, while the
  projection of the snapshot in memory has a card for every entry.
\<close>

theorem view_is_not_always_the_projection:
  "view_of (last_snapshot [QueueResponse Rejected ''9:59 AM''])
       (last_department [QueueResponse Rejected ''9:59 AM''])
       (last_search [] [QueueResponse Rejected ''9:59 AM''])
     \<noteq> Some (queueContainer (run [QueueResponse Rejected ''9:59 AM''] (init_state [] []))) \<and>
   view_of (last_snapshot [QueueResponse broken_reply ''10:00 AM''])
       (last_department [QueueResponse broken_reply ''10:00 AM''])
       (last_search [] [QueueResponse broken_reply ''10:00 AM''])
     \<noteq> Some (queueContainer (run [QueueResponse broken_reply ''10:00 AM''] (init_state [] [])))"
  unfolding rejected_first broken_reply_view
  by (simp add: last_snapshot_def last_department_def last_search_def broken_reply_def
      spec_view_def spec_render_def spec_matches_def)

text \<open>
  C2, amended. Over every run of the controller from \<open>init\<close> (refreshes settled well or
  badly, filter changes, call-next commands, timer ticks, button presses) in which every
  snapshot delivered is an array of well-formed entries, and which holds at least one
  operation that renders (a refresh that delivers a snapshot, or a filter change), the
  container shows the projection \<open>spec_view\<close> of the snapshot most recently delivered
  under the department most recently picked and the search text most recently typed,
  and nothing else enters the view. The same holds from the start when the page
  template already shows the projection of the empty snapshot.
\<close>

theorem view_is_projection_of_last_snapshot:
  assumes "list_all wf_event es"
    and "view_inv (init_state template typed) \<or> list_ex renders es"
  shows "view_of (last_snapshot es) (last_department es) (last_search typed es) =
           Some (queueContainer (run es (init_state template typed)))"
proof -
  have "view_inv (run es (init_state template typed))"
    using init_state_wf assms by (rule run_view_inv)
  then show ?thesis by (simp add: view_inv_def init_state_tracks)
qed

theorem view_is_projection_of_last_snapshot_witness:
  "list_all wf_event example_events \<and> list_ex renders example_events \<and>
   queueContainer (run example_events (init_state [] [])) = [DoctorCard (doctor_card dr_lee)]"
  using view_is_projection_of_last_snapshot[of example_events "[]" "[]"]
    example_events_wf example_events_render
  by (simp add: example_last spec_view_def example_filter spec_render_def)

text \<open>
  C3, as stated, fails: a 2xx response whose JSON body has no \<open>queues\<close> is a refresh
  that fails for want of the expected shape, and \<open>loadDoctors\<close> neither shows a notice
  nor writes to the console for it.
\<close>

theorem refresh_without_queues_goes_unreported:
  "\<not> refresh_failure_handled (init_state [] [])
        (loadDoctors (Response True (Some (JObj []))) ''10:00 AM'' (init_state [] []))"
  by (simp add: loadDoctors_no_queues refresh_failure_handled_def)

text \<open>
  C3, amended. When the fetch is rejected, the status is not 2xx, the body is not valid
  JSON or the body is \<open>null\<close>, \<open>loadDoctors\<close> returns with the state as it was but for
  exactly one console line and one notice; so the snapshot is untouched and nothing
  propagates. When the JSON body has no truthy \<open>queues\<close>, \<open>loadDoctors\<close> changes nothing
  at all: no notice, no console line.
\<close>

theorem loadDoctors_failure_paths:
  "(request_fails r \<longrightarrow>
      (\<exists>e. loadDoctors r now s =
         showNotification ''System Error'' ''Failed to load queue data. Using cached data.''
           (console_error ''Error fetching queue data:'' e s)) \<and>
      refresh_failure_handled s (loadDoctors r now s)) \<and>
   (no_queues r \<longrightarrow> loadDoctors r now s = s)"
proof (intro conjI impI)
  assume "request_fails r"
  then obtain e where e: "loadDoctors r now s =
         showNotification ''System Error'' ''Failed to load queue data. Using cached data.''
           (console_error ''Error fetching queue data:'' e s)"
    using loadDoctors_request_fails by blast
  then show "\<exists>e. loadDoctors r now s =
         showNotification ''System Error'' ''Failed to load queue data. Using cached data.''
           (console_error ''Error fetching queue data:'' e s)" by blast
  from e show "refresh_failure_handled s (loadDoctors r now s)"
    by (simp add: refresh_failure_handled_def showNotification_def console_error_def)
next
  assume "no_queues r"
  then show "loadDoctors r now s = s" by (rule loadDoctors_no_queues)
qed

theorem loadDoctors_failure_paths_witness:
  "request_fails (Response False None) \<and>
   refresh_failure_handled example_state
     (loadDoctors (Response False None) ''10:00 AM'' example_state) \<and>
   no_queues (Response True (Some (JObj []))) \<and>
   loadDoctors (Response True (Some (JObj []))) ''10:00 AM'' example_state = example_state"
  using loadDoctors_failure_paths[of "Response False None" "''10:00 AM''" example_state]
    loadDoctors_failure_paths[of "Response True (Some (JObj []))" "''10:00 AM''" example_state]
  by simp

text \<open>
  C4, as stated, fails: when the POST answers 2xx with \<open>success\<close> false,
  \<open>callNextPatient\<close> shows no notice.
\<close>

theorem reported_call_failure_shows_no_notice:
  "\<not> call_failure_handled (init_state [] [])
        (callNextPatient (JNum 42) (Response True (Some (JObj [(''success'', JBool False)])))
           (init_state [] []))"
  by (simp add: callNextPatient_reports_failure call_failure_handled_def)

text \<open>
  C4, amended. When the POST is rejected, answers with a status that is not 2xx, or
  with a body that is not valid JSON or is \<open>null\<close>, \<open>callNextPatient\<close> shows the error
  notice and writes one console line; snapshot, filter state and view are unchanged and
  no refresh is requested. When the body has \<open>success\<close> false (or none),
  \<open>callNextPatient\<close> changes nothing at all and shows no notice.
\<close>

theorem callNextPatient_failure_paths:
  "(request_fails r \<longrightarrow>
      (\<exists>e. callNextPatient doctorId r s =
         showNotification ''System Error'' ''Failed to call next patient''
           (console_error ''Error calling next patient:'' e s)) \<and>
      call_failure_handled s (callNextPatient doctorId r s) \<and>
      requests (callNextPatient doctorId r s) = requests s) \<and>
   (reports_failure r \<longrightarrow> callNextPatient doctorId r s = s)"
proof (intro conjI impI)
  assume "request_fails r"
  then obtain e where e: "callNextPatient doctorId r s =
         showNotification ''System Error'' ''Failed to call next patient''
           (console_error ''Error calling next patient:'' e s)"
    using callNextPatient_request_fails by blast
  then show "\<exists>e. callNextPatient doctorId r s =
         showNotification ''System Error'' ''Failed to call next patient''
           (console_error ''Error calling next patient:'' e s)" by blast
  from e show "call_failure_handled s (callNextPatient doctorId r s)"
    by (simp add: call_failure_handled_def showNotification_def console_error_def)
  from e show "requests (callNextPatient doctorId r s) = requests s"
    by (simp add: showNotification_def console_error_def)
next
  assume "reports_failure r"
  then show "callNextPatient doctorId r s = s" by (rule callNextPatient_reports_failure)
qed

theorem callNextPatient_failure_paths_witness:
  "request_fails Rejected \<and>
   call_failure_handled example_state (callNextPatient (JNum 42) Rejected example_state) \<and>
   reports_failure (Response True (Some (JObj [(''success'', JBool False)]))) \<and>
   callNextPatient (JNum 42) (Response True (Some (JObj [(''success'', JBool False)])))
       example_state
     = example_state"
  using callNextPatient_failure_paths[of Rejected "JNum 42" example_state]
    callNextPatient_failure_paths[of "Response True (Some (JObj [(''success'', JBool False)]))"
      "JNum 42" example_state]
  by simp

text \<open>
  C5. When the POST answers 2xx with a truthy \<open>success\<close>, \<open>callNextPatient\<close> shows
  exactly one notice, the confirmation, and calls \<open>loadDoctors\<close> exactly once, which
  sends one more GET request; it changes nothing else, so the snapshot stays as it is
  until that refresh settles.
\<close>

theorem callNextPatient_success_refreshes_once:
  assumes "reports_success r"
  shows "callNextPatient doctorId r s =
     s\<lparr>notifications := notifications s @
          [(''Patient Called'', ''Next patient called for doctor '' @ ToString doctorId)],
       requests := requests s + 1\<rparr>"
  using assms by (rule callNextPatient_reports_success)

theorem callNextPatient_success_refreshes_once_witness:
  "reports_success (Response True (Some (JObj [(''success'', JBool True)]))) \<and>
   callNextPatient (JStr ''42'') (Response True (Some (JObj [(''success'', JBool True)])))
       (init_state [] []) =
     (init_state [] [])\<lparr>notifications :=
                            [(''Patient Called'', ''Next patient called for doctor 42'')],
                          requests := 2\<rparr>"
  using callNextPatient_success_refreshes_once[of
      "Response True (Some (JObj [(''success'', JBool True)]))" "JStr ''42''" "init_state [] []"]
  by (simp add: init_state_def loadDoctors_call_def)

text \<open>
  C6 says that a case kind outside \<open>normal\<close>, \<open>urgent\<close>, \<open>followup\<close> renders as the
  empty string. The code: for the entry \<open>dr_roy\<close>, whose current patient has the case
  \<open>emergency\<close>, the card is built and its case label is the text \<open>undefined\<close>.
\<close>

theorem unknown_case_kind_prints_undefined:
  "createDoctorCard dr_roy = Inr (doctor_card dr_roy) \<and>
   patient (doctor_card dr_roy) = PatientDisplay ''3'' ''Ben'' (Text ''undefined'') ''10:05''"
  by (simp add: createDoctorCard_def get_prop_def doctor_card_def dr_roy_def
      patient_section_of_def or_else_def medicalCases_text_def medicalCases_def
      object_prototype_functions_def dec_int_def digit_def)

text \<open>
  C7. For every doctor entry whose status is none of \<open>available\<close>, \<open>in-session\<close>,
  \<open>on-break\<close>, the card is built with the label and the class of \<open>available\<close>:
  \<open>Available\<close>, \<open>status-available\<close>.
\<close>

theorem unknown_status_renders_available:
  assumes "\<not> nullish doctor"
    and "field doctor ''status'' \<notin> {JStr ''available'', JStr ''in-session'', JStr ''on-break''}"
  shows "\<exists>c. createDoctorCard doctor = Inr c \<and>
           statusText c = ''Available'' \<and> statusClass c = ''status-available'' \<and>
           status_of (JStr ''available'') = (statusClass c, statusText c)"
  using assms by (simp add: createDoctorCard_not_nullish doctor_card_def status_of_def)

theorem unknown_status_renders_available_witness:
  "\<not> nullish dr_kim \<and>
   field dr_kim ''status'' \<notin> {JStr ''available'', JStr ''in-session'', JStr ''on-break''} \<and>
   (\<exists>c. createDoctorCard dr_kim = Inr c \<and>
        statusText c = ''Available'' \<and> statusClass c = ''status-available'')"
proof -
  have a: "\<not> nullish dr_kim" by (simp add: dr_kim_def)
  have b: "field dr_kim ''status'' \<notin> {JStr ''available'', JStr ''in-session'', JStr ''on-break''}"
    by (simp add: dr_kim_def)
  from unknown_status_renders_available[OF a b] a b show ?thesis by blast
qed

text \<open>
  C8. For every doctor entry the card is built; when the entry has no \<open>currentPatient\<close>
  field the card holds the \<open>No current patient\<close> placeholder instead of a patient
  display, and when it has no \<open>waiting\<close> field the waiting count reads \<open>0\<close>.
\<close>

theorem absent_patient_and_waiting_list:
  assumes "\<not> nullish doctor"
  shows "\<exists>c. createDoctorCard doctor = Inr c \<and>
           (field doctor ''currentPatient'' = JUndefined \<longrightarrow> patient c = NoCurrentPatient) \<and>
           (field doctor ''waiting'' = JUndefined \<longrightarrow> waiting_count c = ''0'')"
  using assms
  by (simp add: createDoctorCard_not_nullish doctor_card_def patient_section_of_def dec_int_0)

theorem absent_patient_and_waiting_list_witness:
  "\<not> nullish dr_kim \<and> field dr_kim ''currentPatient'' = JUndefined \<and>
   field dr_kim ''waiting'' = JUndefined \<and>
   (\<exists>c. createDoctorCard dr_kim = Inr c \<and> patient c = NoCurrentPatient \<and>
        waiting_count c = ''0'')"
proof -
  have a: "\<not> nullish dr_kim" by (simp add: dr_kim_def)
  have b: "field dr_kim ''currentPatient'' = JUndefined" "field dr_kim ''waiting'' = JUndefined"
    by (simp_all add: dr_kim_def)
  from absent_patient_and_waiting_list[OF a] a b show ?thesis by auto
qed

text \<open>
  C9. A filter change, by department or by search text, leaves the snapshot as it is and
  sends no request; it updates the filter state, and it renders at once from the
  snapshot in memory: afterwards the container shows the projection of that snapshot
  under the new filter state.
\<close>

theorem filter_change_rerenders_from_memory:
  "doctors (step (DepartmentClick department) s) = doctors s \<and>
   requests (step (DepartmentClick department) s) = requests s \<and>
   currentDepartment (step (DepartmentClick department) s) = department \<and>
   searchInput (step (DepartmentClick department) s) = searchInput s \<and>
   doctors (step (SearchInput v) s) = doctors s \<and>
   requests (step (SearchInput v) s) = requests s \<and>
   currentDepartment (step (SearchInput v) s) = currentDepartment s \<and>
   searchInput (step (SearchInput v) s) = v \<and>
   (wf_snapshot (doctors s) \<longrightarrow>
      view_inv (step (DepartmentClick department) s) \<and> view_inv (step (SearchInput v) s))"
  by (simp add: filterDoctors_frame filterDoctors_view_inv)

theorem filter_change_rerenders_from_memory_witness:
  "wf_snapshot (doctors example_state) \<and>
   doctors (step (SearchInput ''valve'') example_state) = doctors example_state \<and>
   requests (step (SearchInput ''valve'') example_state) = requests example_state \<and>
   view_inv (step (DepartmentClick ''neurology'') example_state) \<and>
   view_inv (step (SearchInput ''valve'') example_state)"
proof -
  have a: "wf_snapshot (doctors example_state)"
    using example_entries_wf by (simp add: example_state_def)
  from filter_change_rerenders_from_memory[of "''neurology''" example_state "''valve''"] a
  show ?thesis by blast
qed

text \<open>
  C10. On every card that is built, the call-next listener is attached exactly when the
  entry's \<open>currentPatient\<close> is truthy, and it calls for that entry's \<open>doctor_id\<close>; a
  card of an entry without \<open>currentPatient\<close> has no call-next action.
\<close>

theorem call_action_only_with_current_patient:
  assumes "createDoctorCard doctor = Inr c"
  shows "(call_action c \<noteq> None \<longleftrightarrow> ToBoolean (field doctor ''currentPatient'')) \<and>
         (field doctor ''currentPatient'' = JUndefined \<longrightarrow> call_action c = None) \<and>
         (\<forall>doctorId. call_action c = Some doctorId \<longrightarrow> doctorId = field doctor ''doctor_id'')"
proof -
  have "\<not> nullish doctor"
    using assms by (auto simp: createDoctorCard_def get_prop_def split: if_splits)
  with assms have "c = doctor_card doctor" by (simp add: createDoctorCard_not_nullish)
  then show ?thesis by (auto simp: doctor_card_def)
qed

theorem call_action_only_with_current_patient_witness:
  "createDoctorCard dr_kim = Inr (doctor_card dr_kim) \<and>
   field dr_kim ''currentPatient'' = JUndefined \<and>
   call_action (doctor_card dr_kim) = None"
proof -
  have a: "createDoctorCard dr_kim = Inr (doctor_card dr_kim)"
    by (simp add: createDoctorCard_not_nullish dr_kim_def)
  have b: "field dr_kim ''currentPatient'' = JUndefined" by (simp add: dr_kim_def)
  from call_action_only_with_current_patient[OF a] a b show ?thesis by blast
qed

end
